theory Spec2Isabelle
  imports Complex_Main
begin

section \<open>The sticky-note board: data model\<close>

text \<open>
  The repository is one React component, \<^verbatim>\<open>Notes\<close> in
  \<^verbatim>\<open>src/components/Notes.tsx\<close>. Its state is three \<^verbatim>\<open>useState\<close> cells
  (\<^verbatim>\<open>notes\<close>, \<^verbatim>\<open>maxZIndex\<close>, \<^verbatim>\<open>dragState\<close>); its event handlers
  replace them. Each handler is modelled as a function from the state of the render it was
  created in to the state of the next render. What the handlers read from the browser
  (the clock, the random number generator, the pointer, the layout rectangles, the
  storage) is an argument of the model.

  JavaScript numbers are modelled as \<^typ>\<open>real\<close> (coordinates, sizes) and
  \<^typ>\<open>int\<close> (the stacking order and the clock): the rounding of IEEE doubles is
  not modelled. Strings are \<^typ>\<open>string\<close>.
\<close>

text \<open>
  \<^verbatim>\<open>interface Note { id; content; x; y; width; height; color; zIndex }\<close>.
  The field \<^verbatim>\<open>id\<close> is written \<open>id'\<close>, since \<open>id\<close> is HOL's identity.
\<close>

record Note =
  id' :: string
  content :: string
  x :: real
  y :: real
  width :: real
  height :: real
  color :: string
  zIndex :: int

text \<open>
  The drag state: \<^verbatim>\<open>{ isDragging: boolean; noteId: string | null; offset: {x, y} }\<close>.
  The offset is the pair of its \<^verbatim>\<open>x\<close> and \<^verbatim>\<open>y\<close>.
\<close>

record DragState =
  isDragging :: bool
  noteId :: "string option"
  offset :: "real \<times> real"

text \<open>
  The component's state. The collection has the type parameter \<open>'c\<close>: the
  initializer of \<^verbatim>\<open>notes\<close> returns whatever \<^verbatim>\<open>JSON.parse\<close> returned
  (TypeScript's \<^verbatim>\<open>any\<close>), so at mount the collection is a value of any shape. The
  handlers work on \<open>Note list\<close>, the type TypeScript assumes.
\<close>

record 'c Board =
  "notes" :: 'c
  maxZIndex :: int
  dragState :: DragState

text \<open>The palette, in the order of the source.\<close>

definition COLORS :: "string list" where
  "COLORS =
    [''#FFE066'', ''#FF6B6B'', ''#4ECDC4'', ''#45B7D1'',
     ''#96CEB4'', ''#FFEAA7'', ''#DDA0DD'', ''#98D8C8'']"

section \<open>The platform: JSON, storage, clock\<close>

text \<open>
  \<^verbatim>\<open>JSON.parse\<close>, \<^verbatim>\<open>JSON.stringify\<close> and \<^verbatim>\<open>localStorage\<close> belong to the
  browser, not to the repository; they are parameters. \<open>JSON_parse\<close> returns
  \<open>None\<close> where \<^verbatim>\<open>JSON.parse\<close> throws a SyntaxError; \<open>JSON_stringify\<close>
  returns \<open>None\<close> where \<^verbatim>\<open>JSON.stringify\<close> throws; \<open>storage_accepts st k v\<close>
  says whether \<^verbatim>\<open>localStorage.setItem(k, v)\<close> succeeds on the storage \<open>st\<close>
  (it throws QuotaExceededError otherwise).
\<close>

type_synonym Storage = "string \<rightharpoonup> string"

record 'c Platform =
  JSON_parse :: "string \<Rightarrow> 'c option"
  JSON_stringify :: "'c \<Rightarrow> string option"
  storage_accepts :: "Storage \<Rightarrow> string \<Rightarrow> string \<Rightarrow> bool"

datatype error = QuotaExceededError | TypeError

text \<open>The one storage key the component reads and writes.\<close>

definition storage_key :: string where
  "storage_key = ''sticky-notes''"

text \<open>JavaScript's truthiness of a \<^verbatim>\<open>string | null\<close>: null and the empty string are falsy.\<close>

fun truthy :: "string option \<Rightarrow> bool" where
  "truthy None = False"
| "truthy (Some s) = (s \<noteq> [])"

subsection \<open>\<^verbatim>\<open>Date.now().toString()\<close>\<close>

text \<open>The decimal digits of a natural number, most significant first.\<close>

definition digit_char :: "nat \<Rightarrow> char" where
  "digit_char d = ''0123456789'' ! d"

function decimal :: "nat \<Rightarrow> string" where
  "decimal n = (if n < 10 then [digit_char n] else decimal (n div 10) @ [digit_char (n mod 10)])"
  by pat_completeness auto
termination
  by (relation "measure (\<lambda>n. n)") auto

text \<open>The number a string of decimal digits denotes.\<close>

definition digit_val :: "char \<Rightarrow> nat" where
  "digit_val c = of_char c - 48"

definition decimal_value :: "string \<Rightarrow> nat" where
  "decimal_value s = foldl (\<lambda>a c. 10 * a + digit_val c) 0 s"

definition toString :: "int \<Rightarrow> string" where
  "toString i = (if i < 0 then CHR ''-'' # decimal (nat (- i)) else decimal (nat i))"

section \<open>The component\<close>

subsection \<open>Mounting: the \<^verbatim>\<open>useState\<close> initializers\<close>

text \<open>
  \<^verbatim>\<open>
  const saved = localStorage.getItem("sticky-notes");
  if (saved) { try { return JSON.parse(saved); } catch { return initialNotes; } }
  return initialNotes;
  \<close>
\<close>

definition hydrate :: "'c Platform \<Rightarrow> Storage \<Rightarrow> 'c \<Rightarrow> 'c" where
  "hydrate P st initialNotes =
    (let saved = st storage_key in
     if truthy saved then
       (case JSON_parse P (the saved) of
          Some v \<Rightarrow> v
        | None \<Rightarrow> initialNotes)
     else initialNotes)"

definition idle :: DragState where
  "idle = \<lparr>isDragging = False, noteId = None, offset = (0, 0)\<rparr>"

text \<open>
  The state of the first render: the hydrated collection, \<^verbatim>\<open>useState(100)\<close> for
  the counter, and no drag.
\<close>

definition Notes_mount :: "'c Platform \<Rightarrow> Storage \<Rightarrow> 'c \<Rightarrow> 'c Board" where
  "Notes_mount P st initialNotes =
    \<lparr>notes = hydrate P st initialNotes, maxZIndex = 100, dragState = idle\<rparr>"

subsection \<open>The save effect\<close>

text \<open>
  \<^verbatim>\<open>
  useEffect(() => {
    localStorage.setItem("sticky-notes", JSON.stringify(notes));
    onNotesChange?.(notes);
  }, [notes, onNotesChange]);
  \<close>
  The body has no \<^verbatim>\<open>try\<close>: an exception of \<^verbatim>\<open>JSON.stringify\<close> (a TypeError,
  which no collection of notes raises) or of \<^verbatim>\<open>setItem\<close> leaves the effect, and the
  callback is not reached. The result is the
  error, or the new storage with the list of values the callback received
  (\<open>has_callback\<close> says whether the host passed \<^verbatim>\<open>onNotesChange\<close>).
\<close>

definition save_effect ::
  "'c Platform \<Rightarrow> bool \<Rightarrow> 'c \<Rightarrow> Storage \<Rightarrow> error + (Storage \<times> 'c list)" where
  "save_effect P has_callback ns st =
    (case JSON_stringify P ns of
       None \<Rightarrow> Inl TypeError
     | Some s \<Rightarrow>
         if storage_accepts P st storage_key s
         then Inr (st(storage_key \<mapsto> s), if has_callback then [ns] else [])
         else Inl QuotaExceededError)"

subsection \<open>The handlers\<close>

text \<open>
  \<^verbatim>\<open>Math.random()\<close> returns a number in \<open>[0, 1)\<close>; the three draws of
  \<^verbatim>\<open>addNote\<close> are arguments, in the order the source makes them.
\<close>

definition is_random :: "real \<Rightarrow> bool" where
  "is_random r = (0 \<le> r \<and> r < 1)"

text \<open>
  \<^verbatim>\<open>
  const newNote = { id: Date.now().toString(), content: "New note...",
    x: Math.random() * 300, y: Math.random() * 200, width: 200, height: 200,
    color: COLORS[Math.floor(Math.random() * COLORS.length)], zIndex: maxZIndex + 1 };
  setNotes((prev) => [...prev, newNote]);
  setMaxZIndex((prev) => prev + 1);
  \<close>
  The index \<open>\<lfloor>r * 8\<rfloor>\<close> is within the palette for every draw of
  \<^verbatim>\<open>Math.random\<close>.
\<close>

definition newNote :: "int \<Rightarrow> real \<Rightarrow> real \<Rightarrow> real \<Rightarrow> int \<Rightarrow> Note" where
  "newNote now rx ry rc mz =
    \<lparr>id' = toString now, content = ''New note...'',
     x = rx * 300, y = ry * 200, width = 200, height = 200,
     color = COLORS ! nat \<lfloor>rc * real (length COLORS)\<rfloor>,
     zIndex = mz + 1\<rparr>"

definition addNote :: "int \<Rightarrow> real \<Rightarrow> real \<Rightarrow> real \<Rightarrow> Note list Board \<Rightarrow> Note list Board" where
  "addNote now rx ry rc b =
    b\<lparr>notes := notes b @ [newNote now rx ry rc (maxZIndex b)],
      maxZIndex := maxZIndex b + 1\<rparr>"

text \<open>\<^verbatim>\<open>setNotes((prev) => prev.filter((note) => note.id !== id))\<close>\<close>

definition deleteNote :: "string \<Rightarrow> Note list Board \<Rightarrow> Note list Board" where
  "deleteNote i b = b\<lparr>notes := filter (\<lambda>note. id' note \<noteq> i) (notes b)\<rparr>"

text \<open>\<^verbatim>\<open>prev.map((note) => (note.id === id ? { ...note, content } : note))\<close>\<close>

definition updateNoteContent :: "string \<Rightarrow> string \<Rightarrow> Note list Board \<Rightarrow> Note list Board" where
  "updateNoteContent i c b =
    b\<lparr>notes := map (\<lambda>note. if id' note = i then note\<lparr>content := c\<rparr> else note) (notes b)\<rparr>"

text \<open>\<^verbatim>\<open>prev.map((note) => (note.id === id ? { ...note, color } : note))\<close>\<close>

definition updateNoteColor :: "string \<Rightarrow> string \<Rightarrow> Note list Board \<Rightarrow> Note list Board" where
  "updateNoteColor i c b =
    b\<lparr>notes := map (\<lambda>note. if id' note = i then note\<lparr>color := c\<rparr> else note) (notes b)\<rparr>"

text \<open>
  \<^verbatim>\<open>
  const newZIndex = maxZIndex + 1;
  setNotes((prev) => prev.map((note) => note.id === id ? { ...note, zIndex: newZIndex } : note));
  setMaxZIndex(newZIndex);
  \<close>
\<close>

definition bringToFront :: "string \<Rightarrow> Note list Board \<Rightarrow> Note list Board" where
  "bringToFront i b =
    (let newZIndex = maxZIndex b + 1 in
     b\<lparr>notes := map (\<lambda>note. if id' note = i then note\<lparr>zIndex := newZIndex\<rparr> else note) (notes b),
       maxZIndex := newZIndex\<rparr>)"

text \<open>\<^verbatim>\<open>setNotes([])\<close>\<close>

definition clearAllNotes :: "Note list Board \<Rightarrow> Note list Board" where
  "clearAllNotes b = b\<lparr>notes := []\<rparr>"

text \<open>
  The pointer position is \<open>(clientX, clientY)\<close>; a bounding rectangle is the
  pair \<open>(left, top)\<close>, the only two fields the source reads; \<open>containerRect\<close> is
  \<open>None\<close> when \<^verbatim>\<open>containerRef.current\<close> is null.
  \<^verbatim>\<open>
  if (!containerRect) return;
  setDragState({ isDragging: true, noteId,
                 offset: { x: e.clientX - rect.left, y: e.clientY - rect.top } });
  bringToFront(noteId);
  \<close>
\<close>

definition handleMouseDown ::
  "real \<times> real \<Rightarrow> real \<times> real \<Rightarrow> (real \<times> real) option \<Rightarrow> string \<Rightarrow>
   Note list Board \<Rightarrow> Note list Board" where
  "handleMouseDown e rect containerRect i b =
    (case containerRect of
       None \<Rightarrow> b
     | Some _ \<Rightarrow>
         bringToFront i
           (b\<lparr>dragState :=
               \<lparr>isDragging = True, noteId = Some i,
                offset = (fst e - fst rect, snd e - snd rect)\<rparr>\<rparr>))"

text \<open>
  \<^verbatim>\<open>
  if (!dragState.isDragging || !dragState.noteId) return;
  if (!containerRect) return;
  const newX = e.clientX - containerRect.left - dragState.offset.x;
  const newY = e.clientY - containerRect.top - dragState.offset.y;
  setNotes((prev) => prev.map((note) => note.id === dragState.noteId
      ? { ...note, x: Math.max(0, newX), y: Math.max(0, newY) } : note));
  \<close>
\<close>

definition handleMouseMove ::
  "real \<times> real \<Rightarrow> (real \<times> real) option \<Rightarrow> Note list Board \<Rightarrow> Note list Board" where
  "handleMouseMove e containerRect b =
    (if \<not> isDragging (dragState b) \<or> \<not> truthy (noteId (dragState b)) then b
     else case containerRect of
       None \<Rightarrow> b
     | Some c \<Rightarrow>
         (let newX = fst e - fst c - fst (offset (dragState b));
              newY = snd e - snd c - snd (offset (dragState b))
          in b\<lparr>notes :=
                 map (\<lambda>note. if Some (id' note) = noteId (dragState b)
                              then note\<lparr>x := max 0 newX, y := max 0 newY\<rparr>
                              else note)
                     (notes b)\<rparr>))"

text \<open>\<^verbatim>\<open>setDragState({ isDragging: false, noteId: null, offset: { x: 0, y: 0 } })\<close>\<close>

definition handleMouseUp :: "Note list Board \<Rightarrow> Note list Board" where
  "handleMouseUp b = b\<lparr>dragState := idle\<rparr>"

section \<open>Sequences of events\<close>

text \<open>
  One constructor per handler, with what the handler reads from the browser: the clock
  and the three random draws for \<^verbatim>\<open>addNote\<close>; the pointer, the note's rectangle and
  the container's rectangle for the mouse handlers.
\<close>

datatype Event =
    AddNote int real real real
  | DeleteNote string
  | UpdateNoteContent string string
  | UpdateNoteColor string string
  | BringToFront string
  | ClearAllNotes
  | MouseDown "real \<times> real" "real \<times> real" "(real \<times> real) option" string
  | MouseMove "real \<times> real" "(real \<times> real) option"
  | MouseUp

fun handle :: "Event \<Rightarrow> Note list Board \<Rightarrow> Note list Board" where
  "handle (AddNote now rx ry rc) b = addNote now rx ry rc b"
| "handle (DeleteNote i) b = deleteNote i b"
| "handle (UpdateNoteContent i c) b = updateNoteContent i c b"
| "handle (UpdateNoteColor i c) b = updateNoteColor i c b"
| "handle (BringToFront i) b = bringToFront i b"
| "handle ClearAllNotes b = clearAllNotes b"
| "handle (MouseDown e rect containerRect i) b = handleMouseDown e rect containerRect i b"
| "handle (MouseMove e containerRect) b = handleMouseMove e containerRect b"
| "handle MouseUp b = handleMouseUp b"

fun run :: "Event list \<Rightarrow> Note list Board \<Rightarrow> Note list Board" where
  "run [] b = b"
| "run (ev # evs) b = run evs (handle ev b)"

text \<open>The identifiers on the board, in the order of the collection.\<close>

definition ids :: "Note list Board \<Rightarrow> string list" where
  "ids b = map id' (notes b)"

text \<open>The clock readings of the creations of a sequence, and the identifiers they yield.\<close>

fun clocks :: "Event list \<Rightarrow> int list" where
  "clocks [] = []"
| "clocks (AddNote now rx ry rc # evs) = now # clocks evs"
| "clocks (ev # evs) = clocks evs"

definition created :: "Event list \<Rightarrow> string list" where
  "created evs = map toString (clocks evs)"

text \<open>The identifiers a sequence passes to \<^verbatim>\<open>deleteNote\<close>.\<close>

fun deleted :: "Event list \<Rightarrow> string list" where
  "deleted [] = []"
| "deleted (DeleteNote i # evs) = i # deleted evs"
| "deleted (ev # evs) = deleted evs"

text \<open>A sequence of creations and deletions only.\<close>

fun create_or_delete :: "Event \<Rightarrow> bool" where
  "create_or_delete (AddNote now rx ry rc) = True"
| "create_or_delete (DeleteNote i) = True"
| "create_or_delete ev = False"

text \<open>
  No identifier is created after it has been passed to \<^verbatim>\<open>deleteNote\<close>, whether
  or not it had been created before.
\<close>

fun no_recreation :: "Event list \<Rightarrow> bool" where
  "no_recreation [] = True"
| "no_recreation (DeleteNote i # evs) = (i \<notin> set (created evs) \<and> no_recreation evs)"
| "no_recreation (ev # evs) = no_recreation evs"

text \<open>The counter is at least the stacking order of every note.\<close>

definition counter_bounds :: "Note list Board \<Rightarrow> bool" where
  "counter_bounds b = list_all (\<lambda>note. zIndex note \<le> maxZIndex b) (notes b)"

section \<open>A browser for the examples\<close>

text \<open>
  The closed examples below run on a browser given by a finite table of JSON texts
  and the values they denote: \<open>JSON_parse\<close> throws on every other text, and
  \<open>JSON_stringify\<close> on every other value; \<open>ok\<close> says whether the storage
  accepts writes.
\<close>

definition table_browser :: "(string \<times> 'c) list \<Rightarrow> bool \<Rightarrow> 'c Platform" where
  "table_browser tbl ok =
    \<lparr>JSON_parse = map_of tbl,
     JSON_stringify = map_of (map (\<lambda>(s, v). (v, s)) tbl),
     storage_accepts = (\<lambda>st k v. ok)\<rparr>"

text \<open>
  Two notes as \<^verbatim>\<open>addNote\<close> creates them at the clock readings 17 and 18 with all
  random draws 0, and the JSON texts of the collections they form.
\<close>

definition note17 :: Note where
  "note17 = newNote 17 0 0 0 100"

definition note18 :: Note where
  "note18 = newNote 18 0 0 0 101"

definition text17 :: string where
  \<open>text17 = ''[{"id":"17","content":"New note...","x":0,"y":0,"width":200,"height":200,"color":"#FFE066","zIndex":101}]''\<close>

definition text17_18 :: string where
  \<open>text17_18 = ''[{"id":"17","content":"New note...","x":0,"y":0,"width":200,"height":200,"color":"#FFE066","zIndex":101},{"id":"18","content":"New note...","x":0,"y":0,"width":200,"height":200,"color":"#FFE066","zIndex":102}]''\<close>

definition browser :: "bool \<Rightarrow> Note list Platform" where
  "browser ok =
    table_browser [(''[]'', []), (text17, [note17]), (text17_18, [note17, note18])] ok"

text \<open>
  The values \<^verbatim>\<open>JSON.parse\<close> can return, for the examples of texts that are valid
  JSON but no array of notes.
\<close>

datatype JSValue =
    JNull
  | JBoolean bool
  | JNumber real
  | JString string
  | JArray "JSValue list"
  | JObject "(string \<times> JSValue) list"

text \<open>The storage after the collection \<open>[note17]\<close>, and after \<open>[note17, note18]\<close>, was saved.\<close>

definition storage17 :: Storage where
  "storage17 = Map.empty(storage_key \<mapsto> text17)"

definition storage17_18 :: Storage where
  "storage17_18 = Map.empty(storage_key \<mapsto> text17_18)"

text \<open>
  A board with the first note at \<open>(50, 50)\<close> and the second at \<open>(120, 30)\<close>, and
  the same board after the pointer went down on the first note: the container is at
  \<open>(10, 20)\<close>, so the note's rectangle is at \<open>(60, 70)\<close>, and the pointer at
  \<open>(65, 80)\<close> grabs it at the offset \<open>(5, 10)\<close>.
\<close>

definition board50 :: "Note list Board" where
  "board50 =
    \<lparr>notes = [note17\<lparr>x := 50, y := 50\<rparr>, note18\<lparr>x := 120, y := 30\<rparr>],
     maxZIndex = 102, dragState = idle\<rparr>"

definition dragging50 :: "Note list Board" where
  "dragging50 = handleMouseDown (65, 80) (60, 70) (Some (10, 20)) ''17'' board50"

section \<open>The vocabulary of the drag statement\<close>

text \<open>
  What a drag move is said to do to one note, in the words of the specification: the
  note carrying the dragged identifier gets the position (pointer position - board
  origin - grab offset), each coordinate clamped to be non-negative; every other note is
  left as it is. It is compared with \<open>handleMouseMove\<close> below.
\<close>

definition drag_to ::
  "string \<Rightarrow> real \<times> real \<Rightarrow> real \<times> real \<Rightarrow> real \<times> real \<Rightarrow> Note \<Rightarrow> Note" where
  "drag_to i off e c note =
    (if id' note = i
     then note\<lparr>x := max 0 (fst e - fst c - fst off), y := max 0 (snd e - snd c - snd off)\<rparr>
     else note)"

text \<open>
  A pointer path: the successive pointer positions, each with the container's rectangle
  at that moment, as the mouse-move events they raise.
\<close>

definition moves :: "((real \<times> real) \<times> (real \<times> real)) list \<Rightarrow> Event list" where
  "moves path = map (\<lambda>(e, c). MouseMove e (Some c)) path"

section \<open>Basic facts\<close>

lemma COLORS_length: "length COLORS = 8"
  by (simp add: COLORS_def)

subsection \<open>The decimal form of a number determines the number\<close>

lemma digit_val_digit_char: "d < 10 \<Longrightarrow> digit_val (digit_char d) = d"
proof -
  assume "d < 10"
  then have "d \<in> {0,1,2,3,4,5,6,7,8,9}" by auto
  then show ?thesis
    by (auto simp: digit_val_def digit_char_def)
qed

lemma digit_char_not_minus: "d < 10 \<Longrightarrow> digit_char d \<noteq> CHR ''-''"
proof -
  assume "d < 10"
  then have "d \<in> {0,1,2,3,4,5,6,7,8,9}" by auto
  then show ?thesis
    by (auto simp: digit_char_def)
qed

lemma decimal_value_decimal: "decimal_value (decimal n) = n"
proof (induction n rule: decimal.induct)
  case (1 n)
  show ?case
  proof (cases "n < 10")
    case True
    then show ?thesis
      by (subst decimal.simps) (simp add: decimal_value_def digit_val_digit_char)
  next
    case False
    with 1 have "decimal_value (decimal (n div 10)) = n div 10" by simp
    with False show ?thesis
      by (subst decimal.simps) (simp add: decimal_value_def digit_val_digit_char)
  qed
qed

lemma decimal_inj: "decimal m = decimal n \<Longrightarrow> m = n"
  by (metis decimal_value_decimal)

lemma decimal_no_minus: "CHR ''-'' \<notin> set (decimal n)"
proof (induction n rule: decimal.induct)
  case (1 n)
  show ?case
  proof (cases "n < 10")
    case True
    then show ?thesis
      using digit_char_not_minus [of n] by (subst decimal.simps) auto
  next
    case False
    with 1 have "CHR ''-'' \<notin> set (decimal (n div 10))" by simp
    moreover have "digit_char (n mod 10) \<noteq> CHR ''-''"
      by (rule digit_char_not_minus) simp
    ultimately show ?thesis
      using False by (subst decimal.simps) auto
  qed
qed

lemma toString_inj: "toString i = toString j \<Longrightarrow> i = j"
proof -
  assume eq: "toString i = toString j"
  have neg: "\<And>a b. CHR ''-'' # decimal a \<noteq> decimal b"
    using decimal_no_minus by (metis list.set_intros(1))
  show "i = j"
  proof (cases "i < 0")
    case True
    show ?thesis
    proof (cases "j < 0")
      case True
      with \<open>i < 0\<close> eq have "decimal (nat (- i)) = decimal (nat (- j))"
        by (simp add: toString_def)
      then have "nat (- i) = nat (- j)" by (rule decimal_inj)
      with True \<open>i < 0\<close> show ?thesis by simp
    next
      case False
      with \<open>i < 0\<close> eq neg show ?thesis by (simp add: toString_def)
    qed
  next
    case False
    show ?thesis
    proof (cases "j < 0")
      case True
      with False eq neg [of "nat (- j)" "nat i"] show ?thesis by (simp add: toString_def)
    next
      case jn: False
      with False eq have "decimal (nat i) = decimal (nat j)"
        by (simp add: toString_def)
      then have "nat i = nat j" by (rule decimal_inj)
      with False jn show ?thesis by simp
    qed
  qed
qed

subsection \<open>The identifiers on the board\<close>

lemma ids_addNote: "ids (addNote now rx ry rc b) = ids b @ [toString now]"
  by (simp add: ids_def addNote_def newNote_def)

lemma ids_deleteNote: "ids (deleteNote i b) = filter (\<lambda>j. j \<noteq> i) (ids b)"
  by (simp add: ids_def deleteNote_def filter_map comp_def)

lemma ids_updateNoteContent: "ids (updateNoteContent i c b) = ids b"
  by (simp add: ids_def updateNoteContent_def comp_def cong: if_cong)

lemma ids_updateNoteColor: "ids (updateNoteColor i c b) = ids b"
  by (simp add: ids_def updateNoteColor_def comp_def)

lemma ids_bringToFront: "ids (bringToFront i b) = ids b"
  by (simp add: ids_def bringToFront_def Let_def comp_def)

lemma ids_clearAllNotes: "ids (clearAllNotes b) = []"
  by (simp add: ids_def clearAllNotes_def)

lemma ids_handleMouseDown: "ids (handleMouseDown e rect c i b) = ids b"
  by (cases c) (simp_all add: handleMouseDown_def ids_bringToFront, simp add: ids_def)

lemma ids_handleMouseMove: "ids (handleMouseMove e c b) = ids b"
  by (cases c) (simp_all add: handleMouseMove_def ids_def Let_def comp_def)

lemma ids_handleMouseUp: "ids (handleMouseUp b) = ids b"
  by (simp add: ids_def handleMouseUp_def)

lemmas ids_simps = ids_addNote ids_deleteNote ids_updateNoteContent ids_updateNoteColor
  ids_bringToFront ids_clearAllNotes ids_handleMouseDown ids_handleMouseMove ids_handleMouseUp

lemma ids_handle_subset:
  "set (ids (handle ev b)) \<subseteq> set (ids b) \<union> set (created [ev])"
  by (cases ev) (auto simp: ids_simps created_def)

lemma distinct_created: "distinct (clocks evs) \<Longrightarrow> distinct (created evs)"
  unfolding created_def by (rule iffD2 [OF distinct_map]) (auto intro: inj_onI dest: toString_inj)

lemma created_Cons: "set (created (ev # evs)) = set (created [ev]) \<union> set (created evs)"
  by (cases ev) (simp_all add: created_def)

lemma clocks_Cons_distinct: "distinct (clocks (ev # evs)) \<Longrightarrow> distinct (clocks evs)"
  by (cases ev) simp_all

lemma distinct_ids_handle:
  assumes "distinct (ids b)" and "set (created [ev]) \<inter> set (ids b) = {}"
  shows "distinct (ids (handle ev b))"
  using assms by (cases ev) (auto simp: ids_simps created_def)

lemma created_head_fresh:
  assumes "distinct (clocks (ev # evs))"
  shows "set (created [ev]) \<inter> set (created evs) = {}"
proof (cases ev)
  case (AddNote now rx ry rc)
  with assms have "now \<notin> set (clocks evs)" by simp
  then have "toString now \<notin> set (created evs)"
    by (auto simp: created_def dest: toString_inj)
  with AddNote show ?thesis by (simp add: created_def)
qed (simp_all add: created_def)

text \<open>
  Distinct identifiers stay distinct along a sequence of events whose creations happen
  at pairwise distinct clock readings, none of which yields an identifier already on the
  board. The board is generalised: every event changes it.
\<close>

lemma distinct_ids_run:
  assumes "distinct (ids b)" and "distinct (clocks evs)"
    and "set (created evs) \<inter> set (ids b) = {}"
  shows "distinct (ids (run evs b))"
  using assms
proof (induction evs arbitrary: b)
  case Nil
  then show ?case by simp
next
  case (Cons ev evs)
  from Cons.prems(3) have head: "set (created [ev]) \<inter> set (ids b) = {}"
    and tail: "set (created evs) \<inter> set (ids b) = {}"
    by (auto simp: created_Cons [of ev evs])
  have "distinct (ids (handle ev b))"
    using Cons.prems(1) head by (rule distinct_ids_handle)
  moreover have "distinct (clocks evs)"
    using Cons.prems(2) by (rule clocks_Cons_distinct)
  moreover have "set (created evs) \<inter> set (ids (handle ev b)) = {}"
    using ids_handle_subset [of ev b] tail created_head_fresh [OF Cons.prems(2)] by auto
  ultimately have "distinct (ids (run evs (handle ev b)))"
    by (rule Cons.IH)
  then show ?case by simp
qed

lemma three_creations:
  "map zIndex (notes (run [AddNote t1 a1 b1 c1, AddNote t2 a2 b2 c2, AddNote t3 a3 b3 c3] b))
     = map zIndex (notes b) @ [maxZIndex b + 1, maxZIndex b + 2, maxZIndex b + 3]"
  by (simp add: addNote_def newNote_def)

text \<open>
  Creations and deletions from any board: the identifiers at the end are those of the
  start and the created ones, less the deleted ones, when no identifier is created
  after it has been passed to delete.
\<close>

lemma ids_run_create_delete:
  assumes "list_all create_or_delete evs" and "no_recreation evs"
  shows "set (ids (run evs b)) = (set (ids b) \<union> set (created evs)) - set (deleted evs)"
  using assms
proof (induction evs arbitrary: b)
  case Nil
  then show ?case by (simp add: created_def)
next
  case (Cons ev evs)
  show ?case
  proof (cases ev)
    case (AddNote now rx ry rc)
    with Cons.prems have "list_all create_or_delete evs" "no_recreation evs" by simp_all
    then have "set (ids (run evs (handle ev b))) =
        (set (ids (handle ev b)) \<union> set (created evs)) - set (deleted evs)"
      by (rule Cons.IH)
    with AddNote show ?thesis by (simp add: ids_simps created_def Un_commute insert_commute)
  next
    case (DeleteNote i)
    with Cons.prems have rest: "list_all create_or_delete evs" "no_recreation evs"
      and fresh: "i \<notin> set (created evs)" by simp_all
    from rest have "set (ids (run evs (handle ev b))) =
        (set (ids (handle ev b)) \<union> set (created evs)) - set (deleted evs)"
      by (rule Cons.IH)
    with DeleteNote fresh show ?thesis by (auto simp: ids_simps created_def)
  qed (use Cons.prems in simp_all)
qed

lemma map_no_match: "\<forall>n \<in> set ns. \<not> p n \<Longrightarrow> map (\<lambda>n. if p n then f n else n) ns = ns"
  by (induction ns) auto

subsection \<open>The example browser and its two sessions\<close>

lemma browser_stringify:
  "JSON_stringify (browser ok) [] = Some ''[]''"
  "JSON_stringify (browser ok) [note17] = Some text17"
  "JSON_stringify (browser ok) [note17, note18] = Some text17_18"
  by (simp_all add: browser_def table_browser_def note17_def note18_def newNote_def
      text17_def text17_18_def toString_def digit_char_def)

lemma browser_parse:
  "JSON_parse (browser ok) ''[]'' = Some []"
  "JSON_parse (browser ok) text17 = Some [note17]"
  "JSON_parse (browser ok) text17_18 = Some [note17, note18]"
  by (simp_all add: browser_def table_browser_def text17_def text17_18_def)

lemma browser_accepts: "storage_accepts (browser ok) st k v = ok"
  by (simp add: browser_def table_browser_def)

lemma texts_nonempty: "text17 \<noteq> []" "text17_18 \<noteq> []"
  by (simp_all add: text17_def text17_18_def)

text \<open>A first session on an empty storage creates one note, or two.\<close>

lemma first_session:
  "addNote 17 0 0 0 (Notes_mount P Map.empty []) =
     \<lparr>notes = [note17], maxZIndex = 101, dragState = idle\<rparr>"
  "addNote 18 0 0 0 (addNote 17 0 0 0 (Notes_mount P Map.empty [])) =
     \<lparr>notes = [note17, note18], maxZIndex = 102, dragState = idle\<rparr>"
  by (simp_all add: addNote_def Notes_mount_def hydrate_def note17_def note18_def)

text \<open>A second session mounts on the storage the first one left.\<close>

lemma reload17:
  "Notes_mount (browser ok) storage17 init = \<lparr>notes = [note17], maxZIndex = 100, dragState = idle\<rparr>"
  by (simp add: Notes_mount_def hydrate_def storage17_def browser_parse texts_nonempty)

lemma reload17_18:
  "Notes_mount (browser ok) storage17_18 init =
     \<lparr>notes = [note17, note18], maxZIndex = 100, dragState = idle\<rparr>"
  by (simp add: Notes_mount_def hydrate_def storage17_18_def browser_parse texts_nonempty)

lemma zIndex_examples: "zIndex note17 = 101" "zIndex note18 = 102"
  "id' note17 = ''17''" "id' note18 = ''18''"
  by (simp_all add: note17_def note18_def newNote_def toString_def digit_char_def)

lemma ids_one_note:
  "ids (addNote 17 0 0 0 (Notes_mount P Map.empty [])) = [''17'']"
  by (simp add: first_session ids_def zIndex_examples)

lemma dragging50_state:
  "dragState dragging50 = \<lparr>isDragging = True, noteId = Some ''17'', offset = (5, 10)\<rparr>"
  "notes dragging50 = [note17\<lparr>x := 50, y := 50, zIndex := 103\<rparr>, note18\<lparr>x := 120, y := 30\<rparr>]"
  by (simp_all add: dragging50_def handleMouseDown_def board50_def bringToFront_def
      zIndex_examples)

subsection \<open>The new note\<close>

lemma palette_index: "is_random rc \<Longrightarrow> nat \<lfloor>rc * real (length COLORS)\<rfloor> < length COLORS"
proof -
  assume "is_random rc"
  then have r: "0 \<le> rc" "rc < 1" by (simp_all add: is_random_def)
  then have "rc * 8 < 8" by simp
  then have "\<lfloor>rc * 8\<rfloor> < 8" by (simp add: floor_less_iff)
  then have "nat \<lfloor>rc * 8\<rfloor> < 8" by linarith
  then show ?thesis by (simp add: COLORS_length)
qed

text \<open>
  For every draw of \<^verbatim>\<open>Math.random\<close> the new note lies in the spawn region, has the
  default size and a colour of the palette; its stacking order is the counter plus one.
\<close>

lemma newNote_fields:
  assumes "is_random rx" and "is_random ry" and "is_random rc"
  shows "0 \<le> x (newNote now rx ry rc mz) \<and> x (newNote now rx ry rc mz) < 300
    \<and> 0 \<le> y (newNote now rx ry rc mz) \<and> y (newNote now rx ry rc mz) < 200
    \<and> width (newNote now rx ry rc mz) = 200 \<and> height (newNote now rx ry rc mz) = 200
    \<and> color (newNote now rx ry rc mz) \<in> set COLORS
    \<and> zIndex (newNote now rx ry rc mz) = mz + 1"
proof -
  from assms(3) have "COLORS ! nat \<lfloor>rc * real (length COLORS)\<rfloor> \<in> set COLORS"
    by (intro nth_mem palette_index)
  with assms(1,2) show ?thesis
    by (simp add: newNote_def is_random_def)
qed

subsection \<open>While the counter bounds the collection\<close>

text \<open>
  On a board whose counter is at least every stacking order, a new note is strictly
  above every note, and every handler keeps the counter above the collection. The empty
  board is such a board.
\<close>

lemma addNote_on_top:
  assumes "counter_bounds b"
  shows "notes (addNote now rx ry rc b) = notes b @ [newNote now rx ry rc (maxZIndex b)]
    \<and> maxZIndex (addNote now rx ry rc b) = maxZIndex b + 1
    \<and> list_all (\<lambda>note. zIndex note < zIndex (newNote now rx ry rc (maxZIndex b))) (notes b)"
  using assms by (auto simp: addNote_def newNote_def counter_bounds_def list_all_iff)

lemma counter_bounds_handle:
  assumes "counter_bounds b"
  shows "counter_bounds (handle ev b)"
proof (cases ev)
  case (MouseDown e rect c i)
  with assms show ?thesis
    by (cases c)
       (auto simp: counter_bounds_def list_all_iff handleMouseDown_def bringToFront_def Let_def)
next
  case (MouseMove e c)
  with assms show ?thesis
    by (cases c) (auto simp: counter_bounds_def list_all_iff handleMouseMove_def Let_def)
qed (use assms in \<open>auto simp: counter_bounds_def list_all_iff addNote_def newNote_def
      deleteNote_def updateNoteContent_def updateNoteColor_def bringToFront_def Let_def
      clearAllNotes_def handleMouseUp_def\<close>)

lemma counter_bounds_run: "counter_bounds b \<Longrightarrow> counter_bounds (run evs b)"
  by (induction evs arbitrary: b) (simp_all add: counter_bounds_handle)

lemma counter_bounds_empty: "counter_bounds (Notes_mount P Map.empty [])"
  by (simp add: counter_bounds_def Notes_mount_def hydrate_def)

lemma bringToFront_on_top:
  assumes "counter_bounds b"
  shows "list_all2 (\<lambda>old new. if id' old = i then new = old\<lparr>zIndex := maxZIndex b + 1\<rparr>
                               else new = old \<and> zIndex new < maxZIndex b + 1)
           (notes b) (notes (bringToFront i b))
    \<and> maxZIndex (bringToFront i b) = maxZIndex b + 1
    \<and> counter_bounds (bringToFront i b)"
proof -
  have "counter_bounds (handle (BringToFront i) b)"
    using assms by (rule counter_bounds_handle)
  moreover have "list_all2 (\<lambda>old new. if id' old = i then new = old\<lparr>zIndex := maxZIndex b + 1\<rparr>
                               else new = old \<and> zIndex new < maxZIndex b + 1)
           (notes b) (notes (bringToFront i b))"
    using assms
    by (auto simp: bringToFront_def Let_def counter_bounds_def list_all_iff list_all2_map2
        intro!: list_all2_all_nthI)
  ultimately show ?thesis by (simp add: bringToFront_def Let_def)
qed

subsection \<open>Drag moves\<close>

lemma handleMouseMove_active:
  assumes "isDragging (dragState b)" and "noteId (dragState b) = Some i" and "i \<noteq> []"
  shows "handleMouseMove e (Some c) b =
           b\<lparr>notes := map (drag_to i (offset (dragState b)) e c) (notes b)\<rparr>"
  using assms by (simp add: handleMouseMove_def Let_def drag_to_def)

text \<open>Without a drag, or without the container, a mouse move changes nothing.\<close>

lemma handleMouseMove_guards:
  "\<not> isDragging (dragState b) \<Longrightarrow> handleMouseMove e c b = b"
  "\<not> truthy (noteId (dragState b)) \<Longrightarrow> handleMouseMove e c b = b"
  "handleMouseMove e None b = b"
  by (simp_all add: handleMouseMove_def)

lemma drag_to_twice: "drag_to i off e2 c2 (drag_to i off e1 c1 note) = drag_to i off e2 c2 note"
  by (simp add: drag_to_def)

text \<open>A path of moves ends where its last move puts the note.\<close>

lemma run_moves_active:
  assumes "isDragging (dragState b)" and "noteId (dragState b) = Some i" and "i \<noteq> []"
    and "path \<noteq> []"
  shows "run (moves path) b =
           b\<lparr>notes := map (drag_to i (offset (dragState b)) (fst (last path)) (snd (last path)))
                          (notes b)\<rparr>"
  using assms
proof (induction path arbitrary: b)
  case Nil
  then show ?case by simp
next
  case (Cons p path)
  obtain e c where p: "p = (e, c)" by (cases p)
  let ?b = "handleMouseMove e (Some c) b"
  have step: "?b = b\<lparr>notes := map (drag_to i (offset (dragState b)) e c) (notes b)\<rparr>"
    using Cons.prems by (simp add: handleMouseMove_active)
  show ?case
  proof (cases "path = []")
    case True
    with p step show ?thesis by (simp add: moves_def)
  next
    case False
    have "run (moves path) ?b =
            ?b\<lparr>notes := map (drag_to i (offset (dragState ?b)) (fst (last path)) (snd (last path)))
                             (notes ?b)\<rparr>"
      using Cons.prems False by (intro Cons.IH) (simp_all add: step)
    with p False show ?thesis
      by (simp add: moves_def step drag_to_twice comp_def)
  qed
qed

lemma drag_to_nonneg: "id' (drag_to i off e c note) = i \<Longrightarrow>
    0 \<le> x (drag_to i off e c note) \<and> 0 \<le> y (drag_to i off e c note)"
  by (simp add: drag_to_def split: if_splits)

lemma filter_drag_to:
  "filter (\<lambda>note. id' note \<noteq> i) (map (drag_to i off e c) ns) = filter (\<lambda>note. id' note \<noteq> i) ns"
  by (induction ns) (auto simp: drag_to_def)

subsection \<open>Saving and mounting\<close>

text \<open>
  The save effect and the mount use the same key, and the mount takes what
  \<^verbatim>\<open>JSON.parse\<close> returns for the text that was written, whatever initial notes the
  host supplies. Whether that value is the collection that was saved is a property of the
  browser's JSON, which is a parameter here.
\<close>

lemma mount_reads_what_save_wrote:
  assumes "JSON_stringify P ns = Some s" and "s \<noteq> []"
    and "storage_accepts P st storage_key s"
  shows "\<exists>st'. save_effect P cb ns st = Inr (st', if cb then [ns] else [])
           \<and> st' storage_key = Some s
           \<and> notes (Notes_mount P st' init) = (case JSON_parse P s of Some v \<Rightarrow> v | None \<Rightarrow> init)"
  using assms by (simp add: save_effect_def Notes_mount_def hydrate_def)

section \<open>The properties of the specification\<close>

subsection \<open>C1: creating a note\<close>

text \<open>
  C1. For every board state, creating a note appends one note in the spawn region, of
  the default size and a palette colour, whose stacking order is strictly greater than
  that of every note already in the collection, and increments the counter.

  The position, size, colour and counter are as stated (\<open>newNote_fields\<close>,
  \<open>addNote_on_top\<close>), and the new note is on top while the counter bounds the
  collection. The counter of a freshly mounted board is 100 whatever the hydrated notes
  are, so the last part fails after a reload: the first session creates one note (stacking
  order 101) and saves it; the second session mounts on that storage and creates a note,
  whose stacking order is 101 again, not greater than that of the note already there.
  Whatever the storage and the initial notes hold, the first note created after a mount
  gets the stacking order 101.
\<close>

theorem addNote_after_reload_not_on_top:
  "save_effect (browser True) False (notes (addNote 17 0 0 0 (Notes_mount (browser True) Map.empty [])))
       Map.empty = Inr (storage17, [])
   \<and> map zIndex (notes (Notes_mount (browser True) storage17 [])) = [101]
   \<and> map zIndex (notes (addNote 18 0 0 0 (Notes_mount (browser True) storage17 []))) = [101, 101]
   \<and> zIndex (last (notes (addNote now rx ry rc (Notes_mount P st init)))) = 101"
proof -
  have "save_effect (browser True) False
      (notes (addNote 17 0 0 0 (Notes_mount (browser True) Map.empty []))) Map.empty
        = Inr (storage17, [])"
    by (simp add: first_session save_effect_def browser_stringify browser_accepts storage17_def)
  moreover have "zIndex (last (notes (addNote now rx ry rc (Notes_mount P st init)))) = 101"
    by (simp add: addNote_def newNote_def Notes_mount_def)
  ultimately show ?thesis
    by (simp add: reload17 addNote_def newNote_def zIndex_examples)
qed

subsection \<open>C2: the counter and the highest stacking order\<close>

text \<open>
  C2. At all times, including immediately after hydration from the persisted snapshot
  and after every operation, the counter is at least the highest stacking order in the
  collection.

  Every handler keeps it so (\<open>counter_bounds_handle\<close>, \<open>counter_bounds_run\<close>),
  and it holds on the empty board (\<open>counter_bounds_empty\<close>). It fails immediately
  after hydration: the first session creates one note and saves the collection; the board
  mounted on that storage holds the note with stacking order 101 and the counter 100.
  The counter of a mounted board is 100 whatever the storage and the initial notes hold.
\<close>

theorem reload_resets_counter:
  "save_effect (browser True) False (notes (addNote 17 0 0 0 (Notes_mount (browser True) Map.empty [])))
       Map.empty = Inr (storage17, [])
   \<and> map zIndex (notes (Notes_mount (browser True) storage17 [])) = [101]
   \<and> maxZIndex (Notes_mount (browser True) storage17 []) = 100
   \<and> \<not> counter_bounds (Notes_mount (browser True) storage17 [])
   \<and> maxZIndex (Notes_mount P st init) = 100"
proof -
  have "save_effect (browser True) False
      (notes (addNote 17 0 0 0 (Notes_mount (browser True) Map.empty []))) Map.empty
        = Inr (storage17, [])"
    by (simp add: first_session save_effect_def browser_stringify browser_accepts storage17_def)
  moreover have "maxZIndex (Notes_mount P st init) = 100"
    by (simp add: Notes_mount_def)
  ultimately show ?thesis
    by (simp add: reload17 zIndex_examples counter_bounds_def)
qed

subsection \<open>C3: saving and reloading\<close>

text \<open>
  C3. Serializing a collection to the snapshot and hydrating a fresh board from it yields
  an equivalent board: the same notes, and a board from which all state is re-derivable.

  The mount reads the key the save effect wrote and takes the collection
  \<^verbatim>\<open>JSON.parse\<close> returns for it (\<open>mount_reads_what_save_wrote\<close>), but it does
  not bring the counter back above the stacking orders it loads. The first session
  creates one note and saves the collection; the board it saved has the counter 101. The
  board reloaded from that snapshot holds the same collection with the counter 100, below
  the stacking order 101 of its note, and the same next operation (bringing the note to
  the front) gives the stacking order 102 on the saved board and 101 on the reloaded one:
  the reloaded board is not equivalent to the one that was saved.
\<close>

theorem snapshot_loses_counter:
  "save_effect (browser True) False (notes (addNote 17 0 0 0 (Notes_mount (browser True) Map.empty [])))
       Map.empty = Inr (storage17, [])
   \<and> notes (Notes_mount (browser True) storage17 [])
       = notes (addNote 17 0 0 0 (Notes_mount (browser True) Map.empty []))
   \<and> maxZIndex (addNote 17 0 0 0 (Notes_mount (browser True) Map.empty [])) = 101
   \<and> maxZIndex (Notes_mount (browser True) storage17 []) = 100
   \<and> Notes_mount (browser True) storage17 []
       \<noteq> addNote 17 0 0 0 (Notes_mount (browser True) Map.empty [])
   \<and> map zIndex (notes (bringToFront ''17''
         (addNote 17 0 0 0 (Notes_mount (browser True) Map.empty [])))) = [102]
   \<and> map zIndex (notes (bringToFront ''17'' (Notes_mount (browser True) storage17 []))) = [101]"
proof -
  have "save_effect (browser True) False
      (notes (addNote 17 0 0 0 (Notes_mount (browser True) Map.empty []))) Map.empty
        = Inr (storage17, [])"
    by (simp add: first_session save_effect_def browser_stringify browser_accepts storage17_def)
  then show ?thesis
    by (simp add: reload17 first_session bringToFront_def zIndex_examples)
qed

subsection \<open>C4: bringing a note to the front\<close>

text \<open>
  C4. For every board state and every identifier in the collection, bringing the note to
  the front sets its stacking order to the counter plus one, which makes it the strict
  maximum of the collection, leaves every other note unchanged and advances the counter.

  The stacking order is set to the counter plus one, the other notes are unchanged and
  the counter is advanced; while the counter bounds the collection the note is strictly
  above every note with another identifier, and stays so when brought to the front again
  (\<open>bringToFront_on_top\<close>). It is not the maximum after a reload: the first session
  creates two notes (stacking orders 101 and 102) and saves them; in the second session
  the counter is 100, and bringing the first note to the front gives it 101, below the
  second note.
\<close>

theorem bringToFront_after_reload_stays_behind:
  "save_effect (browser True) False
       (notes (addNote 18 0 0 0 (addNote 17 0 0 0 (Notes_mount (browser True) Map.empty []))))
       Map.empty = Inr (storage17_18, [])
   \<and> ids (Notes_mount (browser True) storage17_18 []) = [''17'', ''18'']
   \<and> map zIndex (notes (Notes_mount (browser True) storage17_18 [])) = [101, 102]
   \<and> map zIndex (notes (bringToFront ''17'' (Notes_mount (browser True) storage17_18 []))) = [101, 102]
   \<and> maxZIndex (bringToFront ''17'' (Notes_mount (browser True) storage17_18 [])) = 101"
proof -
  have "save_effect (browser True) False
      (notes (addNote 18 0 0 0 (addNote 17 0 0 0 (Notes_mount (browser True) Map.empty []))))
      Map.empty = Inr (storage17_18, [])"
    by (simp add: first_session(2) save_effect_def browser_stringify browser_accepts
        storage17_18_def)
  then show ?thesis
    by (simp add: reload17_18 bringToFront_def zIndex_examples ids_def)
qed

subsection \<open>C5: drag moves\<close>

text \<open>
  C5. While a drag is active, each drag move sets the position of the dragged note to
  (pointer position - board origin - grab offset), each coordinate clamped to be
  non-negative; so for every pointer path the coordinates of the dragged note are never
  negative; the other notes are unchanged.

  A drag is active when the source's own test lets the move through:
  \<^verbatim>\<open>isDragging\<close> is set and \<^verbatim>\<open>noteId\<close> is a non-empty identifier (an empty
  string is falsy). A note is the dragged one when it carries that identifier. The counter
  and the drag state are unchanged by a move. After a non-empty path the collection is the
  starting one with the dragged note at the clamped position of the last move.
\<close>

theorem drag_move_clamps:
  assumes "isDragging (dragState b)" and "noteId (dragState b) = Some i" and "i \<noteq> []"
  shows
    "list_all (\<lambda>note. id' note = i \<longrightarrow>
          x note = max 0 (fst e - fst c - fst (offset (dragState b)))
          \<and> y note = max 0 (snd e - snd c - snd (offset (dragState b)))
          \<and> 0 \<le> x note \<and> 0 \<le> y note)
       (notes (handleMouseMove e (Some c) b))
    \<and> filter (\<lambda>note. id' note \<noteq> i) (notes (handleMouseMove e (Some c) b))
         = filter (\<lambda>note. id' note \<noteq> i) (notes b)
    \<and> map (\<lambda>note. note\<lparr>x := 0, y := 0\<rparr>) (notes (handleMouseMove e (Some c) b))
         = map (\<lambda>note. note\<lparr>x := 0, y := 0\<rparr>) (notes b)
    \<and> maxZIndex (handleMouseMove e (Some c) b) = maxZIndex b
    \<and> dragState (handleMouseMove e (Some c) b) = dragState b
    \<and> (path \<noteq> [] \<longrightarrow>
         list_all (\<lambda>note. id' note = i \<longrightarrow>
              x note = max 0 (fst (fst (last path)) - fst (snd (last path))
                               - fst (offset (dragState b)))
              \<and> y note = max 0 (snd (fst (last path)) - snd (snd (last path))
                               - snd (offset (dragState b)))
              \<and> 0 \<le> x note \<and> 0 \<le> y note)
           (notes (run (moves path) b))
         \<and> filter (\<lambda>note. id' note \<noteq> i) (notes (run (moves path) b))
              = filter (\<lambda>note. id' note \<noteq> i) (notes b)
         \<and> map (\<lambda>note. note\<lparr>x := 0, y := 0\<rparr>) (notes (run (moves path) b))
              = map (\<lambda>note. note\<lparr>x := 0, y := 0\<rparr>) (notes b))"
proof -
  have one: "handleMouseMove e (Some c) b =
      b\<lparr>notes := map (drag_to i (offset (dragState b)) e c) (notes b)\<rparr>"
    using assms by (rule handleMouseMove_active)
  have many: "run (moves path) b =
      b\<lparr>notes := map (drag_to i (offset (dragState b)) (fst (last path)) (snd (last path)))
                     (notes b)\<rparr>" if "path \<noteq> []"
    using assms that by (rule run_moves_active)
  have placed: "list_all (\<lambda>note. id' note = i \<longrightarrow>
        x note = max 0 (fst e' - fst c' - fst off) \<and> y note = max 0 (snd e' - snd c' - snd off)
        \<and> 0 \<le> x note \<and> 0 \<le> y note)
      (map (drag_to i off e' c') ns)" for off e' c' ns
    by (induction ns) (simp_all add: drag_to_def)
  have rest: "map (\<lambda>note. note\<lparr>x := 0, y := 0\<rparr>) (map (drag_to i off e' c') ns)
      = map (\<lambda>note. note\<lparr>x := 0, y := 0\<rparr>) ns" for off e' c' ns
    by (induction ns) (simp_all add: drag_to_def)
  have single: "notes (handleMouseMove e (Some c) b)
      = map (drag_to i (offset (dragState b)) e c) (notes b)"
    by (simp add: one)
  have multi: "notes (run (moves path) b)
      = map (drag_to i (offset (dragState b)) (fst (last path)) (snd (last path))) (notes b)"
    if "path \<noteq> []"
    by (simp add: many that)
  have first: "list_all (\<lambda>note. id' note = i \<longrightarrow>
          x note = max 0 (fst e - fst c - fst (offset (dragState b)))
          \<and> y note = max 0 (snd e - snd c - snd (offset (dragState b)))
          \<and> 0 \<le> x note \<and> 0 \<le> y note)
       (notes (handleMouseMove e (Some c) b))
    \<and> filter (\<lambda>note. id' note \<noteq> i) (notes (handleMouseMove e (Some c) b))
         = filter (\<lambda>note. id' note \<noteq> i) (notes b)
    \<and> map (\<lambda>note. note\<lparr>x := 0, y := 0\<rparr>) (notes (handleMouseMove e (Some c) b))
         = map (\<lambda>note. note\<lparr>x := 0, y := 0\<rparr>) (notes b)"
    by (simp only: single placed rest filter_drag_to)
  have unchanged: "maxZIndex (handleMouseMove e (Some c) b) = maxZIndex b
    \<and> dragState (handleMouseMove e (Some c) b) = dragState b"
    by (simp add: one)
  have later: "list_all (\<lambda>note. id' note = i \<longrightarrow>
              x note = max 0 (fst (fst (last path)) - fst (snd (last path))
                               - fst (offset (dragState b)))
              \<and> y note = max 0 (snd (fst (last path)) - snd (snd (last path))
                               - snd (offset (dragState b)))
              \<and> 0 \<le> x note \<and> 0 \<le> y note)
           (notes (run (moves path) b))
         \<and> filter (\<lambda>note. id' note \<noteq> i) (notes (run (moves path) b))
              = filter (\<lambda>note. id' note \<noteq> i) (notes b)
         \<and> map (\<lambda>note. note\<lparr>x := 0, y := 0\<rparr>) (notes (run (moves path) b))
              = map (\<lambda>note. note\<lparr>x := 0, y := 0\<rparr>) (notes b)" if "path \<noteq> []"
    by (simp only: multi [OF that] placed rest filter_drag_to)
  from first unchanged later show ?thesis
    by blast
qed

text \<open>
  The scenario of the specification: the note at \<open>(50, 50)\<close> is grabbed and the
  pointer moves by \<open>(-100, -100)\<close>, from \<open>(65, 80)\<close> to \<open>(-35, -20)\<close>; the note
  ends at \<open>(0, 0)\<close>, and the other note stays at \<open>(120, 30)\<close>. The same holds at the
  end of a path that first goes to \<open>(200, 90)\<close>.
\<close>

theorem drag_move_clamps_witness:
  "isDragging (dragState dragging50) \<and> noteId (dragState dragging50) = Some ''17'' \<and> ''17'' \<noteq> []
   \<and> map (\<lambda>note. (id' note, x note, y note)) (notes dragging50)
        = [(''17'', 50, 50), (''18'', 120, 30)]
   \<and> map (\<lambda>note. (id' note, x note, y note))
        (notes (handleMouseMove (- 35, - 20) (Some (10, 20)) dragging50))
        = [(''17'', 0, 0), (''18'', 120, 30)]
   \<and> map (\<lambda>note. (id' note, x note, y note))
        (notes (run (moves [((200, 90), (10, 20)), ((- 35, - 20), (10, 20))]) dragging50))
        = [(''17'', 0, 0), (''18'', 120, 30)]"
proof -
  have h1: "isDragging (dragState dragging50)"
    and h2: "noteId (dragState dragging50) = Some ''17''"
    and h3: "''17'' \<noteq> []"
    by (simp_all add: dragging50_state)
  have start: "map (\<lambda>note. (id' note, x note, y note)) (notes dragging50)
        = [(''17'', 50, 50), (''18'', 120, 30)]"
    by (simp add: dragging50_state zIndex_examples)
  have shape: "map (\<lambda>note. (id' note, x note, y note)) ns = [(''17'', 0, 0), (''18'', 120, 30)]"
    if placed: "list_all (\<lambda>note. id' note = ''17'' \<longrightarrow>
          x note = 0 \<and> y note = 0 \<and> 0 \<le> x note \<and> 0 \<le> y note) ns"
      and others: "filter (\<lambda>note. id' note \<noteq> ''17'') ns = [note18\<lparr>x := 120, y := 30\<rparr>]"
      and rest: "map (\<lambda>note. note\<lparr>x := 0, y := 0\<rparr>) ns
          = [note17\<lparr>x := 0, y := 0, zIndex := 103\<rparr>, note18\<lparr>x := 0, y := 0\<rparr>]"
    for ns :: "Note list"
  proof -
    from rest obtain n1 n2 where ns: "ns = [n1, n2]"
      and e1: "n1\<lparr>x := 0, y := 0\<rparr> = note17\<lparr>x := 0, y := 0, zIndex := 103\<rparr>"
      and e2: "n2\<lparr>x := 0, y := 0\<rparr> = note18\<lparr>x := 0, y := 0\<rparr>"
      by (auto simp: map_eq_Cons_conv)
    have "id' (n1\<lparr>x := 0, y := 0\<rparr>) = ''17''"
      by (simp only: e1) (simp add: zIndex_examples)
    then have i1: "id' n1 = ''17''" by simp
    have "id' (n2\<lparr>x := 0, y := 0\<rparr>) = ''18''"
      by (simp only: e2) (simp add: zIndex_examples)
    then have i2: "id' n2 = ''18''" by simp
    from placed ns i1 have p1: "x n1 = 0" "y n1 = 0" by simp_all
    from others ns i1 i2 have "n2 = note18\<lparr>x := 120, y := 30\<rparr>" by simp
    with ns i1 i2 p1 show ?thesis by simp
  qed
  from drag_move_clamps [OF h1 h2 h3, of "(- 35, - 20)" "(10, 20)"
      "[((200, 90), (10, 20)), ((- 35, - 20), (10, 20))]"]
  have ends: "list_all (\<lambda>note. id' note = ''17'' \<longrightarrow> x note = 0 \<and> y note = 0 \<and> 0 \<le> x note \<and> 0 \<le> y note)
        (notes (handleMouseMove (- 35, - 20) (Some (10, 20)) dragging50))"
    "filter (\<lambda>note. id' note \<noteq> ''17'') (notes (handleMouseMove (- 35, - 20) (Some (10, 20)) dragging50))
        = [note18\<lparr>x := 120, y := 30\<rparr>]"
    "map (\<lambda>note. note\<lparr>x := 0, y := 0\<rparr>) (notes (handleMouseMove (- 35, - 20) (Some (10, 20)) dragging50))
        = [note17\<lparr>x := 0, y := 0, zIndex := 103\<rparr>, note18\<lparr>x := 0, y := 0\<rparr>]"
    "list_all (\<lambda>note. id' note = ''17'' \<longrightarrow> x note = 0 \<and> y note = 0 \<and> 0 \<le> x note \<and> 0 \<le> y note)
        (notes (run (moves [((200, 90), (10, 20)), ((- 35, - 20), (10, 20))]) dragging50))"
    "filter (\<lambda>note. id' note \<noteq> ''17'')
        (notes (run (moves [((200, 90), (10, 20)), ((- 35, - 20), (10, 20))]) dragging50))
        = [note18\<lparr>x := 120, y := 30\<rparr>]"
    "map (\<lambda>note. note\<lparr>x := 0, y := 0\<rparr>)
        (notes (run (moves [((200, 90), (10, 20)), ((- 35, - 20), (10, 20))]) dragging50))
        = [note17\<lparr>x := 0, y := 0, zIndex := 103\<rparr>, note18\<lparr>x := 0, y := 0\<rparr>]"
    by (simp_all add: dragging50_state zIndex_examples)
  have "map (\<lambda>note. (id' note, x note, y note))
        (notes (handleMouseMove (- 35, - 20) (Some (10, 20)) dragging50))
        = [(''17'', 0, 0), (''18'', 120, 30)]"
    using ends(1) ends(2) ends(3) by (rule shape)
  moreover have "map (\<lambda>note. (id' note, x note, y note))
        (notes (run (moves [((200, 90), (10, 20)), ((- 35, - 20), (10, 20))]) dragging50))
        = [(''17'', 0, 0), (''18'', 120, 30)]"
    using ends(4) ends(5) ends(6) by (rule shape)
  ultimately show ?thesis
    using h1 h2 start by simp
qed

subsection \<open>C6: identifiers are unique\<close>

text \<open>
  C6. After every sequence of operations all identifiers in the collection are pairwise
  distinct, and creating 3 notes on an empty board yields 3 notes with unique identifiers
  and the stacking orders 101, 102, 103.

  An identifier is the clock reading of the creation, in milliseconds, so as stated this
  fails: three creations at one clock reading give three notes with one identifier.
\<close>

theorem same_millisecond_same_id:
  "ids (run [AddNote 17 0 0 0, AddNote 17 0 0 0, AddNote 17 0 0 0]
          (Notes_mount (browser True) Map.empty [])) = [''17'', ''17'', ''17'']
   \<and> \<not> distinct (ids (run [AddNote 17 0 0 0, AddNote 17 0 0 0, AddNote 17 0 0 0]
          (Notes_mount (browser True) Map.empty [])))"
  by (simp add: ids_simps toString_def digit_char_def)
     (simp add: ids_def Notes_mount_def hydrate_def)

text \<open>
  C6, amended. On a board whose identifiers are pairwise distinct, after every sequence
  of operations whose creations happen at pairwise distinct clock readings, none of which
  yields an identifier already on the board, all identifiers in the collection are
  pairwise distinct. Creating 3 notes at pairwise distinct clock readings on the empty
  board yields 3 notes with unique identifiers and the stacking orders 101, 102, 103.
\<close>

theorem ids_distinct_when_clocks_distinct:
  "(distinct (ids b) \<and> distinct (clocks evs) \<and> set (created evs) \<inter> set (ids b) = {}
      \<longrightarrow> distinct (ids (run evs b)))
   \<and> (distinct [t1, t2, t3] \<longrightarrow>
        length (notes (run [AddNote t1 a1 b1 c1, AddNote t2 a2 b2 c2, AddNote t3 a3 b3 c3]
                         (Notes_mount P Map.empty []))) = 3
        \<and> distinct (ids (run [AddNote t1 a1 b1 c1, AddNote t2 a2 b2 c2, AddNote t3 a3 b3 c3]
                         (Notes_mount P Map.empty [])))
        \<and> map zIndex (notes (run [AddNote t1 a1 b1 c1, AddNote t2 a2 b2 c2, AddNote t3 a3 b3 c3]
                         (Notes_mount P Map.empty []))) = [101, 102, 103])"
proof -
  have mount: "notes (Notes_mount P Map.empty []) = []" "maxZIndex (Notes_mount P Map.empty []) = 100"
    by (simp_all add: Notes_mount_def hydrate_def)
  have "distinct (ids (run [AddNote t1 a1 b1 c1, AddNote t2 a2 b2 c2, AddNote t3 a3 b3 c3]
                         (Notes_mount P Map.empty [])))" if "distinct [t1, t2, t3]"
    using that by (intro distinct_ids_run) (simp_all add: ids_def mount)
  moreover have "length (notes (run [AddNote t1 a1 b1 c1, AddNote t2 a2 b2 c2, AddNote t3 a3 b3 c3]
                         (Notes_mount P Map.empty []))) = 3"
    by (simp add: addNote_def mount)
  moreover have "map zIndex (notes (run [AddNote t1 a1 b1 c1, AddNote t2 a2 b2 c2, AddNote t3 a3 b3 c3]
                         (Notes_mount P Map.empty []))) = [101, 102, 103]"
    by (simp only: three_creations mount) simp
  ultimately show ?thesis
    using distinct_ids_run [of b evs] by blast
qed

text \<open>
  Four events on the empty board with creations at the clock readings 17, 18 and 19, and
  the scenario of three creations at those readings.
\<close>

theorem ids_distinct_when_clocks_distinct_witness:
  "distinct (ids (Notes_mount (browser True) Map.empty []))
   \<and> distinct (clocks [AddNote 17 0 0 0, DeleteNote ''17'', AddNote 18 0 0 0, AddNote 19 0 0 0])
   \<and> set (created [AddNote 17 0 0 0, DeleteNote ''17'', AddNote 18 0 0 0, AddNote 19 0 0 0])
        \<inter> set (ids (Notes_mount (browser True) Map.empty [])) = {}
   \<and> distinct (ids (run [AddNote 17 0 0 0, DeleteNote ''17'', AddNote 18 0 0 0, AddNote 19 0 0 0]
        (Notes_mount (browser True) Map.empty [])))
   \<and> distinct [17, 18, 19 :: int]
   \<and> length (notes (run [AddNote 17 0 0 0, AddNote 18 0 0 0, AddNote 19 0 0 0]
        (Notes_mount (browser True) Map.empty []))) = 3
   \<and> distinct (ids (run [AddNote 17 0 0 0, AddNote 18 0 0 0, AddNote 19 0 0 0]
        (Notes_mount (browser True) Map.empty [])))
   \<and> map zIndex (notes (run [AddNote 17 0 0 0, AddNote 18 0 0 0, AddNote 19 0 0 0]
        (Notes_mount (browser True) Map.empty []))) = [101, 102, 103]"
proof -
  have empty: "ids (Notes_mount (browser True) Map.empty []) = []"
    by (simp add: ids_def Notes_mount_def hydrate_def)
  have h: "distinct (ids (Notes_mount (browser True) Map.empty []))
    \<and> distinct (clocks [AddNote 17 0 0 0, DeleteNote ''17'', AddNote 18 0 0 0, AddNote 19 0 0 0])
    \<and> set (created [AddNote 17 0 0 0, DeleteNote ''17'', AddNote 18 0 0 0, AddNote 19 0 0 0])
        \<inter> set (ids (Notes_mount (browser True) Map.empty [])) = {}"
    by (simp add: empty)
  have d: "distinct [17, 18, 19 :: int]" by simp
  from h d ids_distinct_when_clocks_distinct
    [of "Notes_mount (browser True) Map.empty []"
        "[AddNote 17 0 0 0, DeleteNote ''17'', AddNote 18 0 0 0, AddNote 19 0 0 0]"
        17 18 19 0 0 0 0 0 0 0 0 0 "browser True"]
  show ?thesis by blast
qed

subsection \<open>C7: creations and deletions\<close>

text \<open>
  C7. For every sequence of create and delete operations starting from the empty board,
  the set of identifiers in the final collection is the set of identifiers of the created
  notes minus the set of identifiers passed to delete.

  A deletion removes the notes that carry the identifier when it happens and leaves no
  trace, so as stated this fails when an identifier is created again after it was
  deleted: create at the clock reading 17, delete \<open>''17''\<close>, create at 17 again. The
  final collection holds \<open>''17''\<close>, and created minus deleted is empty.
\<close>

theorem recreated_id_survives_its_deletion:
  "list_all create_or_delete [AddNote 17 0 0 0, DeleteNote ''17'', AddNote 17 0 0 0]
   \<and> set (ids (run [AddNote 17 0 0 0, DeleteNote ''17'', AddNote 17 0 0 0]
          (Notes_mount (browser True) Map.empty []))) = {''17''}
   \<and> set (created [AddNote 17 0 0 0, DeleteNote ''17'', AddNote 17 0 0 0])
       - set (deleted [AddNote 17 0 0 0, DeleteNote ''17'', AddNote 17 0 0 0]) = {}"
  by (simp add: ids_simps created_def toString_def digit_char_def)
     (simp add: ids_def Notes_mount_def hydrate_def)

text \<open>
  C7, amended. For every sequence of create and delete operations starting from an empty
  board in which no identifier is created after it has been passed to delete, the
  set of identifiers in the final collection is the set of identifiers of the created
  notes minus the set of identifiers passed to delete.
\<close>

theorem ids_are_created_minus_deleted:
  assumes "list_all create_or_delete evs" and "no_recreation evs" and "notes b = []"
  shows "set (ids (run evs b)) = set (created evs) - set (deleted evs)"
proof -
  from assms(3) have "ids b = []" by (simp add: ids_def)
  with ids_run_create_delete [OF assms(1,2), of b] show ?thesis by simp
qed

theorem ids_are_created_minus_deleted_witness:
  "list_all create_or_delete [AddNote 17 0 0 0, AddNote 18 0 0 0, DeleteNote ''17'', DeleteNote ''99'']
   \<and> no_recreation [AddNote 17 0 0 0, AddNote 18 0 0 0, DeleteNote ''17'', DeleteNote ''99'']
   \<and> notes (Notes_mount (browser True) Map.empty []) = []
   \<and> set (ids (run [AddNote 17 0 0 0, AddNote 18 0 0 0, DeleteNote ''17'', DeleteNote ''99'']
          (Notes_mount (browser True) Map.empty []))) = {''18''}
   \<and> set (created [AddNote 17 0 0 0, AddNote 18 0 0 0, DeleteNote ''17'', DeleteNote ''99''])
       - set (deleted [AddNote 17 0 0 0, AddNote 18 0 0 0, DeleteNote ''17'', DeleteNote ''99''])
       = {''18''}"
proof -
  have h1: "list_all create_or_delete
      [AddNote 17 0 0 0, AddNote 18 0 0 0, DeleteNote ''17'', DeleteNote ''99'']"
    by simp
  have h2: "no_recreation [AddNote 17 0 0 0, AddNote 18 0 0 0, DeleteNote ''17'', DeleteNote ''99'']"
    by (simp add: created_def)
  have h3: "notes (Notes_mount (browser True) Map.empty []) = []"
    by (simp add: Notes_mount_def hydrate_def)
  have v: "set (created [AddNote 17 0 0 0, AddNote 18 0 0 0, DeleteNote ''17'', DeleteNote ''99''])
       - set (deleted [AddNote 17 0 0 0, AddNote 18 0 0 0, DeleteNote ''17'', DeleteNote ''99''])
       = {''18''}"
    by (simp add: created_def toString_def digit_char_def)
  from ids_are_created_minus_deleted [OF h1 h2 h3] h1 h2 h3 v show ?thesis
    by simp
qed

subsection \<open>C8: operations on a missing identifier\<close>

text \<open>
  C8. For every board state and every identifier that is not in the collection, delete,
  edit content and set colour are no-ops: the collection is unchanged and no error is
  raised. The handlers are total (\<^verbatim>\<open>filter\<close> and \<^verbatim>\<open>map\<close> raise nothing), and
  the whole board is unchanged.
\<close>

theorem missing_id_is_noop:
  assumes "i \<notin> set (ids b)"
  shows "deleteNote i b = b \<and> updateNoteContent i c b = b \<and> updateNoteColor i col b = b"
proof -
  from assms have no: "\<forall>n \<in> set (notes b). \<not> id' n = i"
    by (auto simp: ids_def)
  then have "filter (\<lambda>note. id' note \<noteq> i) (notes b) = notes b"
    by (simp add: filter_id_conv)
  then have d: "deleteNote i b = b" by (simp add: deleteNote_def)
  from no have
    "map (\<lambda>note. if id' note = i then note\<lparr>content := c\<rparr> else note) (notes b) = notes b"
    by (rule map_no_match)
  then have u: "updateNoteContent i c b = b" by (simp add: updateNoteContent_def)
  from no have
    "map (\<lambda>note. if id' note = i then note\<lparr>color := col\<rparr> else note) (notes b) = notes b"
    by (rule map_no_match)
  then have v: "updateNoteColor i col b = b" by (simp add: updateNoteColor_def)
  from d u v show ?thesis by simp
qed

theorem missing_id_is_noop_witness:
  "''99'' \<notin> set (ids (addNote 17 0 0 0 (Notes_mount (browser True) Map.empty [])))
   \<and> deleteNote ''99'' (addNote 17 0 0 0 (Notes_mount (browser True) Map.empty []))
       = addNote 17 0 0 0 (Notes_mount (browser True) Map.empty [])
   \<and> updateNoteContent ''99'' ''hello'' (addNote 17 0 0 0 (Notes_mount (browser True) Map.empty []))
       = addNote 17 0 0 0 (Notes_mount (browser True) Map.empty [])
   \<and> updateNoteColor ''99'' ''#FF6B6B'' (addNote 17 0 0 0 (Notes_mount (browser True) Map.empty []))
       = addNote 17 0 0 0 (Notes_mount (browser True) Map.empty [])"
proof -
  have h: "''99'' \<notin> set (ids (addNote 17 0 0 0 (Notes_mount (browser True) Map.empty [])))"
    by (simp add: ids_one_note)
  from missing_id_is_noop [OF h, of "''hello''" "''#FF6B6B''"] h show ?thesis by simp
qed

subsection \<open>C9: a failing snapshot write\<close>

text \<open>
  C9. When the snapshot write after a mutation fails, the failure is swallowed rather
  than propagated.

  The save effect has no handler around \<^verbatim>\<open>localStorage.setItem\<close>, so as stated this
  fails: on a storage that rejects the write, the effect ends with the
  QuotaExceededError, and the change callback of the host is not reached.
\<close>

theorem save_failure_leaves_the_effect:
  "JSON_stringify (browser False) [note17] = Some text17
   \<and> save_effect (browser False) True [note17] Map.empty = Inl QuotaExceededError"
  by (simp add: save_effect_def browser_stringify browser_accepts)

text \<open>
  C9, amended. The save effect does not catch a failure of the storage write: when
  \<^verbatim>\<open>localStorage.setItem\<close> throws, the exception leaves the effect, the storage is
  not written and the change callback is not invoked. When the write succeeds, the storage
  holds the text under the key and the callback, if there is one, is invoked once with the
  collection. The effect returns no collection: the one in memory is not its to change.
\<close>

theorem save_failure_is_not_caught:
  "(JSON_stringify P ns = Some s \<and> \<not> storage_accepts P st storage_key s
        \<longrightarrow> save_effect P cb ns st = Inl QuotaExceededError)
   \<and> (JSON_stringify P ns = Some s \<and> storage_accepts P st storage_key s
        \<longrightarrow> save_effect P cb ns st = Inr (st(storage_key \<mapsto> s), if cb then [ns] else []))"
  by (simp add: save_effect_def)

theorem save_failure_is_not_caught_witness:
  "JSON_stringify (browser False) [note17, note18] = Some text17_18
   \<and> \<not> storage_accepts (browser False) Map.empty storage_key text17_18
   \<and> save_effect (browser False) True [note17, note18] Map.empty = Inl QuotaExceededError
   \<and> JSON_stringify (browser True) [note17] = Some text17
   \<and> storage_accepts (browser True) Map.empty storage_key text17
   \<and> save_effect (browser True) True [note17] Map.empty
       = Inr (Map.empty(storage_key \<mapsto> text17), [[note17]])"
proof -
  have b: "JSON_stringify (browser ok) [note17] = Some text17"
    and b': "JSON_stringify (browser ok) [note17, note18] = Some text17_18" for ok
    by (rule browser_stringify)+
  have c: "storage_accepts (browser ok) Map.empty storage_key v = ok" for ok v
    by (rule browser_accepts)
  from b b' c
    save_failure_is_not_caught
      [where P = "browser False" and ns = "[note17, note18]" and s = text17_18 and cb = True
         and st = Map.empty]
    save_failure_is_not_caught
      [where P = "browser True" and ns = "[note17]" and s = text17 and cb = True
         and st = Map.empty]
  show ?thesis by simp
qed

subsection \<open>C10: hydration validates nothing\<close>

text \<open>
  C10. Hydration validates nothing beyond JSON parseability: for every non-empty stored
  string that parses, the parsed value becomes the collection of the board and the initial
  notes of the host are ignored, also when the value is no array of notes (the strings
  \<open>null\<close> and \<open>{}\<close> give a board whose collection is null or an object); only a
  parse exception or an absent or empty stored value falls back to the initial notes.
  The collection has any type here, as the value \<^verbatim>\<open>JSON.parse\<close> returns has.
\<close>

theorem hydration_takes_any_parsed_value:
  "(st storage_key = Some s \<and> s \<noteq> [] \<and> JSON_parse P s = Some v
      \<longrightarrow> notes (Notes_mount P st init) = v)
   \<and> (st storage_key = Some s \<and> s \<noteq> [] \<and> JSON_parse P s = None
      \<longrightarrow> notes (Notes_mount P st init) = init)
   \<and> (st storage_key = None \<or> st storage_key = Some []
      \<longrightarrow> notes (Notes_mount P st init) = init)"
  by (auto simp: Notes_mount_def hydrate_def)

text \<open>
  A browser that parses \<open>null\<close> to null and \<open>{}\<close> to the empty object and throws
  on \<open>{\<close>; the host supplies the empty array.
\<close>

theorem hydration_takes_any_parsed_value_witness:
  "notes (Notes_mount (table_browser [(''null'', JNull), (''{}'', JObject [])] True)
            (Map.empty(storage_key \<mapsto> ''null'')) (JArray [])) = JNull
   \<and> notes (Notes_mount (table_browser [(''null'', JNull), (''{}'', JObject [])] True)
            (Map.empty(storage_key \<mapsto> ''{}'')) (JArray [])) = JObject []
   \<and> notes (Notes_mount (table_browser [(''null'', JNull), (''{}'', JObject [])] True)
            (Map.empty(storage_key \<mapsto> ''{'')) (JArray [])) = JArray []
   \<and> notes (Notes_mount (table_browser [(''null'', JNull), (''{}'', JObject [])] True)
            (Map.empty(storage_key \<mapsto> [])) (JArray [])) = JArray []
   \<and> notes (Notes_mount (table_browser [(''null'', JNull), (''{}'', JObject [])] True)
            Map.empty (JArray [])) = JArray []"
  using
    hydration_takes_any_parsed_value
      [of "Map.empty(storage_key \<mapsto> ''null'')" "''null''"
          "table_browser [(''null'', JNull), (''{}'', JObject [])] True" JNull "JArray []"]
    hydration_takes_any_parsed_value
      [of "Map.empty(storage_key \<mapsto> ''{}'')" "''{}''"
          "table_browser [(''null'', JNull), (''{}'', JObject [])] True" "JObject []" "JArray []"]
    hydration_takes_any_parsed_value
      [of "Map.empty(storage_key \<mapsto> ''{'')" "''{''"
          "table_browser [(''null'', JNull), (''{}'', JObject [])] True" _ "JArray []"]
    hydration_takes_any_parsed_value
      [of "Map.empty(storage_key \<mapsto> [])" _
          "table_browser [(''null'', JNull), (''{}'', JObject [])] True" _ "JArray []"]
    hydration_takes_any_parsed_value
      [of "Map.empty" _
          "table_browser [(''null'', JNull), (''{}'', JObject [])] True" _ "JArray []"]
  by (simp add: table_browser_def)

end
